theory Spec2Isabelle
  imports Main "HOL-Library.Word" "HOL-Library.AList" "HOL-Library.Sublist"
begin

section \<open>The data context (Kitsune::Common data items)\<close>

text \<open>
  Modelled from the spec: the classes \<open>DataItem\<close>, \<open>DataValue\<close>, \<open>DataArray\<close> and
  \<open>DataMap\<close> come from the library libKitsunemimiCommon, whose sources are not part of
  this repository. The spec describes them as the recursive variant
  \<open>Null | Bool | Int | Float | String | Array<Value> | Map<String,Value>\<close> with a
  type-tag query, map lookup by key, indexed array access with a size, and textual
  coercion of \<open>Int\<close> and \<open>String\<close>.

  \<^item> The converter reads an \<open>Int\<close> into a C++ \<open>const int\<close>, so the payload is a 32-bit
    word, read as a signed number with \<open>sint\<close>.
  \<^item> The converter never looks into a \<open>Float\<close>; its payload is the 64 bits of the double.
  \<^item> A map is an association list looked up with \<open>map_of\<close>.
  \<^item> The items of a map and of an array are items, not null pointers. Null pointers
    arise from \<open>get\<close> and from the downcasts, and are modelled where the converter
    handles the pointer (see the section on null pointers).
  \<^item> The loop binding stores a pointer to the array element in the map; the model
    stores the element. No claim below depends on that sharing.
\<close>

datatype data_item =
    DNull
  | DBool bool
  | DInt (getInt: "32 word")
  | DFloat "64 word"
  | DString (getString_value: string)
  | DArray "data_item list"
  | DMap "(string \<times> data_item) list"

type_synonym data_map = "(string \<times> data_item) list"

text \<open>
  Modelled from the spec: \<open>DataItem::get(key)\<close>, the map lookup by key. It yields the null
  pointer (\<open>None\<close>) when the item is not a map or the key is absent.
\<close>

fun item_get :: "data_item \<Rightarrow> string \<Rightarrow> data_item option" where
  "item_get (DMap m) key = map_of m key"
| "item_get _ key = None"

text \<open>
  Modelled from the spec: \<open>DataMap::insert(key, value, force)\<close> as the converter calls it,
  with \<open>force = true\<close>: the key is bound to the value, replacing an earlier binding.
\<close>

definition DataMap_insert :: "string \<Rightarrow> data_item \<Rightarrow> data_map \<Rightarrow> data_map" where
  "DataMap_insert key val m = AList.update key val m"

text \<open>
  \<open>std::to_string(int)\<close> of the C++ standard library: the decimal digits of the number,
  most significant first, after a minus sign when it is negative.
\<close>

function digits :: "nat \<Rightarrow> string" where
  "digits n =
     (if n < 10 then [''0123456789'' ! n]
      else digits (n div 10) @ [''0123456789'' ! (n mod 10)])"
  by pat_completeness auto
termination
  by (relation "measure id") auto

declare digits.simps [simp del]

definition to_string :: "int \<Rightarrow> string" where
  "to_string i = (if i < 0 then CHR ''-'' # digits (nat (- i)) else digits (nat i))"

section \<open>The parsed template (jinja2\_items.h)\<close>

text \<open>
  Modelled from the spec: the item classes are declared in \<open>jinja2_items.h\<close>, which is not
  among the sources. The fields are the ones the converter reads: every item has \<open>next\<close>
  (the last field of each constructor); \<open>TextItem\<close> has \<open>text\<close>; \<open>ReplaceItem\<close> has the
  path \<open>iterateArray\<close>; \<open>IfItem\<close> has \<open>leftSide\<close>, \<open>rightSide\<close>, \<open>ifChild\<close>, \<open>elseChild\<close>;
  \<open>ForLoopItem\<close> has \<open>tempVarName\<close>, \<open>iterateArray\<close>, \<open>forChild\<close>. A pointer that may be
  null is an \<open>option\<close>. A path is the list of its keys (the C++ code holds them in a
  \<open>DataArray\<close> of string values and reads each with \<open>toString()\<close>).
\<close>

datatype jinja2_item =
    TextItem string "jinja2_item option"
  | ReplaceItem "string list" "jinja2_item option"
  | IfItem "string list" data_item "jinja2_item option" "jinja2_item option"
      "jinja2_item option"
  | ForLoopItem string "string list" "jinja2_item option" "jinja2_item option"

section \<open>Null pointers\<close>

text \<open>
  The C++ code reaches items through pointers. A pointer to an item is an \<open>option\<close>,
  \<open>None\<close> being the null pointer, and calling a member function through the null
  pointer is the error \<open>NullPointerDereference\<close>: the program has no result there. Every
  function below that dereferences a pointer returns \<open>Inl\<close> of the error or \<open>Inr\<close> of
  its result.
\<close>

datatype error = NullPointerDereference

text \<open>
  Modelled from the spec: the downcast \<open>DataItem::toValue()\<close> of the library. It gives
  the item back when the item is a value (\<open>Null\<close>, \<open>Bool\<close>, \<open>Int\<close>, \<open>Float\<close>, \<open>String\<close>) and
  the null pointer when it is an \<open>Array\<close> or a \<open>Map\<close>, as the downcast \<open>toArray()\<close> gives
  the null pointer for an item that is not an array.
\<close>

definition toValue :: "data_item \<Rightarrow> data_item option" where
  "toValue item = (if is_DArray item \<or> is_DMap item then None else Some item)"

section \<open>Path resolution: getItem and getString\<close>

text \<open>
  \<open>getItem\<close> returns a pair of a pointer and a flag. The loop keeps the pointer
  \<open>tempJson\<close>, calls \<open>get\<close> through it for one key after the other, and returns the pair
  with the flag false as soon as \<open>get\<close> gives the null pointer; the pointer of that pair
  is left uninitialised in the source and is \<open>None\<close> here. After the last key the pair is
  \<open>tempJson\<close> with the flag true. The context \<open>input\<close> is a map that exists, so the loop
  starts from a pointer that is not null.

  The loops of the source count with a \<open>uint32_t\<close>; paths and arrays have fewer than
  \<open>2^32\<close> entries, so the counter does not wrap and the loops are recursions over the
  list.
\<close>

fun getItem_loop :: "data_item option \<Rightarrow> string list \<Rightarrow> error + data_item option \<times> bool" where
  "getItem_loop tempJson [] = Inr (tempJson, True)"
| "getItem_loop tempJson (key # jsonPath) =
     (case tempJson of
        None \<Rightarrow> Inl NullPointerDereference
      | Some item \<Rightarrow>
          (case item_get item key of
             None \<Rightarrow> Inr (None, False)
           | Some tempJson' \<Rightarrow> getItem_loop (Some tempJson') jsonPath))"

definition getItem :: "data_map \<Rightarrow> string list \<Rightarrow> error + data_item option \<times> bool" where
  "getItem input jsonPath = getItem_loop (Some (DMap input)) jsonPath"

text \<open>
  \<open>getString\<close> returns the pair of the text and the success flag. The result starts as
  the empty string with the flag false. When \<open>getItem\<close> has found the item, the source
  calls \<open>item.first->toValue()->getValueType()\<close> with no test of the item's type before
  it: the call goes through the pointer that \<open>toValue()\<close> returns. The two tests on the
  value type follow one another as in the source; \<open>is_DString\<close> and \<open>is_DInt\<close> are the
  comparisons with \<open>STRING_TYPE\<close> and \<open>INT_TYPE\<close>, and the selectors stand for
  \<open>getString()\<close> and \<open>getInt()\<close> of the value.
\<close>

definition getString :: "data_map \<Rightarrow> string list \<Rightarrow> error + string \<times> bool" where
  "getString input jsonPath =
     (case getItem input jsonPath of
        Inl e \<Rightarrow> Inl e
      | Inr (first, second) \<Rightarrow>
          if second = False then Inr ('''', False)
          else
            (case first of
               None \<Rightarrow> Inl NullPointerDereference
             | Some item \<Rightarrow>
                 (case toValue item of
                    None \<Rightarrow> Inl NullPointerDereference
                  | Some val \<Rightarrow>
                      (let result = ('''', False);
                           result = (if is_DString val then (getString_value val, second)
                                     else result);
                           result = (if is_DInt val
                                     then (to_string (sint (getInt val)), second)
                                     else result)
                       in Inr result))))"

section \<open>The error message\<close>

text \<open>
  The loop of \<open>createErrorMessage\<close> runs over the indices of the path and appends a dot
  before every key but the first. The line that would append the key itself is
  commented out in the source, so the key is not used.
\<close>

fun createErrorMessage_loop :: "nat \<Rightarrow> string list \<Rightarrow> string \<Rightarrow> string" where
  "createErrorMessage_loop i [] errorMessage = errorMessage"
| "createErrorMessage_loop i (key # jsonPath) errorMessage =
     createErrorMessage_loop (Suc i) jsonPath
       (if i \<noteq> 0 then errorMessage @ ''.'' else errorMessage)"

definition createErrorMessage :: "string list \<Rightarrow> string" where
  "createErrorMessage jsonPath =
     (let errorMessage = ''error while converting jinja2-template \<newline>'';
          errorMessage = errorMessage @ ''    can not find item in path in json-input: '';
          errorMessage = createErrorMessage_loop 0 jsonPath errorMessage;
          errorMessage = errorMessage @ ''\<newline>'';
          errorMessage = errorMessage @ ''    or maybe the item does not have a valid format'';
          errorMessage = errorMessage @ '' or the place where it should be used \<newline>''
      in errorMessage)"

section \<open>The evaluator\<close>

text \<open>
  Every function takes the context map \<open>input\<close> and the output buffer, both of which the
  C++ code mutates through pointers, and returns the flag together with the map and the
  buffer as they are when the function returns, or the error of a null pointer
  dereference, which ends the program. The fields of the item are passed in place of
  the pointer to it. The textual form of the right side of a condition,
  \<open>rightSide.toString()\<close>, belongs to the library; it is the parameter \<open>toString\<close>.

  \<open>processForLoop_iter\<close> is the \<open>for\<close> loop inside \<open>processForLoop\<close>, over the elements
  from index \<open>i\<close> on. The array is the one the source path resolved to before the loop
  started. \<open>processForLoop\<close> reads the type of the item through the pointer of the pair
  and downcasts with \<open>toArray()\<close> only after that test.

  The functions are those of \<open>jinja2_converter.cpp\<close>. The header of the repository
  declares them with a separate string for the error message; no implementation of
  that interface is among the sources.
\<close>

type_synonym result = "bool \<times> data_map \<times> string"

function
  processItem :: "(data_item \<Rightarrow> string) \<Rightarrow> data_map \<Rightarrow> jinja2_item option \<Rightarrow> string
    \<Rightarrow> error + result"
and
  processReplace :: "(data_item \<Rightarrow> string) \<Rightarrow> data_map \<Rightarrow> string list
    \<Rightarrow> jinja2_item option \<Rightarrow> string \<Rightarrow> error + result"
and
  processIfCondition :: "(data_item \<Rightarrow> string) \<Rightarrow> data_map \<Rightarrow> string list \<Rightarrow> data_item
    \<Rightarrow> jinja2_item option \<Rightarrow> jinja2_item option \<Rightarrow> jinja2_item option \<Rightarrow> string
    \<Rightarrow> error + result"
and
  processForLoop :: "(data_item \<Rightarrow> string) \<Rightarrow> data_map \<Rightarrow> string \<Rightarrow> string list
    \<Rightarrow> jinja2_item option \<Rightarrow> jinja2_item option \<Rightarrow> string \<Rightarrow> error + result"
and
  processForLoop_iter :: "(data_item \<Rightarrow> string) \<Rightarrow> data_map \<Rightarrow> string
    \<Rightarrow> jinja2_item option \<Rightarrow> data_item list \<Rightarrow> string \<Rightarrow> error + result"
where
  "processItem toString input None output = Inr (True, input, output)"
| "processItem toString input (Some (TextItem text next)) output =
     processItem toString input next (output @ text)"
| "processItem toString input (Some (ReplaceItem iterateArray next)) output =
     (case processReplace toString input iterateArray next output of
        Inl e \<Rightarrow> Inl e
      | Inr (ok, input', output') \<Rightarrow>
          if ok = False then Inr (False, input', output') else Inr (True, input', output'))"
| "processItem toString input (Some (IfItem leftSide rightSide ifChild elseChild next)) output =
     (case processIfCondition toString input leftSide rightSide ifChild elseChild next output of
        Inl e \<Rightarrow> Inl e
      | Inr (ok, input', output') \<Rightarrow>
          if ok = False then Inr (False, input', output') else Inr (True, input', output'))"
| "processItem toString input (Some (ForLoopItem tempVarName iterateArray forChild next)) output =
     (case processForLoop toString input tempVarName iterateArray forChild next output of
        Inl e \<Rightarrow> Inl e
      | Inr (ok, input', output') \<Rightarrow>
          if ok = False then Inr (False, input', output') else Inr (True, input', output'))"
| "processReplace toString input iterateArray next output =
     (case getString input iterateArray of
        Inl e \<Rightarrow> Inl e
      | Inr (jsonValue, found) \<Rightarrow>
          if found = False then Inr (False, input, createErrorMessage iterateArray)
          else processItem toString input next (output @ jsonValue))"
| "processIfCondition toString input leftSide rightSide ifChild elseChild next output =
     (case getString input leftSide of
        Inl e \<Rightarrow> Inl e
      | Inr (jsonValue, found) \<Rightarrow>
          if found = False then Inr (False, input, createErrorMessage leftSide)
          else
            (case (if jsonValue = toString rightSide
                      \<or> jsonValue = ''True''
                      \<or> jsonValue = ''true''
                   then processItem toString input ifChild output
                   else if elseChild \<noteq> None
                     then processItem toString input elseChild output
                     else Inr (True, input, output)) of
               Inl e \<Rightarrow> Inl e
             | Inr (ignored, input', output') \<Rightarrow> processItem toString input' next output'))"
| "processForLoop toString input tempVarName iterateArray forChild next output =
     (case getItem input iterateArray of
        Inl e \<Rightarrow> Inl e
      | Inr (first, found) \<Rightarrow>
          if found = False then Inr (False, input, createErrorMessage iterateArray)
          else
            (case first of
               None \<Rightarrow> Inl NullPointerDereference
             | Some item \<Rightarrow>
                 (case item of
                    DArray array \<Rightarrow>
                      (case processForLoop_iter toString input tempVarName forChild array
                              output of
                         Inl e \<Rightarrow> Inl e
                       | Inr (ok, input', output') \<Rightarrow>
                           if ok = False then Inr (False, input', output')
                           else processItem toString input' next output')
                  | _ \<Rightarrow> Inr (False, input, output))))"
| "processForLoop_iter toString input tempVarName forChild [] output =
     Inr (True, input, output)"
| "processForLoop_iter toString input tempVarName forChild (element # array) output =
     (case processItem toString (DataMap_insert tempVarName element input) forChild output of
        Inl e \<Rightarrow> Inl e
      | Inr (ok, tempLoopInput, output') \<Rightarrow>
          if ok = False then Inr (False, tempLoopInput, output')
          else processForLoop_iter toString tempLoopInput tempVarName forChild array output')"
  by pat_completeness auto
termination
  by (relation "inv_image (less_than <*lex*> less_than)
    (\<lambda>x. case x of
        Inl (Inl (ts, input, part, out)) \<Rightarrow> (3 * size_option size part, 0)
      | Inl (Inr (ts, input, path, nxt, out)) \<Rightarrow> (3 * size_option size nxt + 1, 0)
      | Inr (Inl (ts, input, l, r, ic, ec, nxt, out)) \<Rightarrow>
          (3 * (size_option size ic + size_option size ec + size_option size nxt) + 2, 0)
      | Inr (Inr (Inl (ts, input, n, path, fc, nxt, out))) \<Rightarrow>
          (3 * (size_option size fc + size_option size nxt) + 2, 0)
      | Inr (Inr (Inr (ts, input, n, fc, array, out))) \<Rightarrow>
          (3 * size_option size fc + 1, length array))")
    auto

text \<open>
  \<open>convert\<close>: the parser \<open>m_driver\<close> is external, so what it returns is the parameter
  \<open>parsed\<close>: \<open>Inl\<close> its error message when \<open>parse\<close> fails, \<open>Inr\<close> the item it hands out
  (possibly the null pointer) otherwise. The result is the pair of \<open>convert\<close> together
  with the context map as the call leaves it.
\<close>

definition convert :: "(data_item \<Rightarrow> string) \<Rightarrow> string + jinja2_item option \<Rightarrow> data_map
    \<Rightarrow> error + (bool \<times> string) \<times> data_map" where
  "convert toString parsed input =
     (case parsed of
        Inl errorMessage \<Rightarrow> Inr ((False, errorMessage), input)
      | Inr None \<Rightarrow> Inr ((True, ''''), input)
      | Inr (Some item) \<Rightarrow>
          (case processItem toString input (Some item) '''' of
             Inl e \<Rightarrow> Inl e
           | Inr (ok, input', second) \<Rightarrow> Inr ((ok, second), input')))"

text \<open>
  Modelled from the spec: a textual form of scalars, standing for the library's
  \<open>DataValue::toString()\<close> in the concrete inputs below. It gives a string as it is and
  an \<open>Int\<close> in decimal, the two coercions the spec names, and the empty text otherwise.
  The general theorems hold for every \<open>toString\<close>.
\<close>

definition scalar_toString :: "data_item \<Rightarrow> string" where
  "scalar_toString v =
     (case v of DString s \<Rightarrow> s | DInt n \<Rightarrow> to_string (sint n) | _ \<Rightarrow> '''')"

section \<open>What the spec calls the canonical base-10 text form\<close>

text \<open>
  These definitions follow the words of the spec, not the code: a canonical decimal
  text is an optional minus sign followed by digits without a leading zero (the single
  digit \<open>0\<close> apart, which takes no sign), and \<open>decimal_value\<close> reads such a text back.
\<close>

definition is_digit :: "char \<Rightarrow> bool" where
  "is_digit c = (c \<in> set ''0123456789'')"

definition digits_value :: "string \<Rightarrow> nat" where
  "digits_value s = foldl (\<lambda>a c. 10 * a + (of_char c - 48)) 0 s"

definition canonical_digits :: "string \<Rightarrow> bool" where
  "canonical_digits s =
     (s \<noteq> [] \<and> list_all is_digit s \<and> (hd s = CHR ''0'' \<longrightarrow> s = ''0''))"

definition canonical_decimal :: "string \<Rightarrow> bool" where
  "canonical_decimal s =
     (case s of
        [] \<Rightarrow> False
      | c # cs \<Rightarrow>
          if c = CHR ''-'' then canonical_digits cs \<and> cs \<noteq> ''0'' else canonical_digits s)"

definition decimal_value :: "string \<Rightarrow> int" where
  "decimal_value s =
     (case s of
        [] \<Rightarrow> 0
      | c # cs \<Rightarrow>
          if c = CHR ''-'' then - int (digits_value cs) else int (digits_value s))"

section \<open>What the spec says about the loop\<close>

text \<open>
  These definitions follow the words of the spec, not the code. One iteration of a
  ForLoop, started from the outcome of the iterations before it: when they succeeded
  with the context \<open>ctx\<close> and the buffer \<open>buffer\<close>, the element is inserted under the
  binding name into that same context and the body is evaluated against it, on that
  buffer; a failure or an error of an earlier iteration stays as it is. The iterations
  over an array are the left fold of \<open>iteration\<close> over its elements.
\<close>

definition iteration :: "(data_item \<Rightarrow> string) \<Rightarrow> string \<Rightarrow> jinja2_item option
    \<Rightarrow> error + result \<Rightarrow> data_item \<Rightarrow> error + result" where
  "iteration toString name body r element =
     (case r of
        Inl e \<Rightarrow> Inl e
      | Inr (ok, ctx, buffer) \<Rightarrow>
          if ok then processItem toString (DataMap_insert name element ctx) body buffer
          else Inr (False, ctx, buffer))"

text \<open>
  \<open>binds k part\<close>: some ForLoop in the chain \<open>part\<close>, or nested in it, has the binding
  name \<open>k\<close>.
\<close>

function binds :: "string \<Rightarrow> jinja2_item option \<Rightarrow> bool" where
  "binds k None = False"
| "binds k (Some (TextItem t n)) = binds k n"
| "binds k (Some (ReplaceItem p n)) = binds k n"
| "binds k (Some (IfItem l r ic ec n)) = (binds k ic \<or> binds k ec \<or> binds k n)"
| "binds k (Some (ForLoopItem v p fc n)) = (v = k \<or> binds k fc \<or> binds k n)"
  by pat_completeness auto
termination
  by (relation "measure (\<lambda>(k, part). size_option size part)") auto

section \<open>Lemmas about the decimal text\<close>

lemma digit_cases:
  assumes "d < (10::nat)"
  shows "d \<in> {0, 1, 2, 3, 4, 5, 6, 7, 8, 9}"
  using assms by auto

lemma digit_char: "d < 10 \<Longrightarrow> of_char (''0123456789'' ! d) = (48 + d :: nat)"
  using digit_cases [of d] by auto

lemma digit_is_digit: "d < 10 \<Longrightarrow> is_digit (''0123456789'' ! d)"
  unfolding is_digit_def by (rule nth_mem) simp

lemma digit_zero_iff: "d < 10 \<Longrightarrow> ''0123456789'' ! d = CHR ''0'' \<longleftrightarrow> d = 0"
  using digit_cases [of d] by auto

lemma digits_0: "digits 0 = ''0''"
  by (subst digits.simps) simp

lemma digits_not_Nil: "digits n \<noteq> []"
  by (subst digits.simps) simp

lemma digits_value_digits: "digits_value (digits n) = n"
  unfolding digits_value_def
proof (induction n rule: digits.induct)
  case (1 n)
  show ?case
  proof (cases "n < 10")
    case True
    then show ?thesis by (subst digits.simps) (simp add: digit_char)
  next
    case False
    with 1 show ?thesis by (subst digits.simps) (simp add: digit_char)
  qed
qed

lemma digits_all_digits: "list_all is_digit (digits n)"
proof (induction n rule: digits.induct)
  case (1 n)
  then show ?case by (subst digits.simps) (simp add: digit_is_digit)
qed

lemma hd_digits: "hd (digits n) = CHR ''0'' \<longleftrightarrow> n = 0"
proof (induction n rule: digits.induct)
  case (1 n)
  show ?case
  proof (cases "n < 10")
    case True
    then show ?thesis by (subst digits.simps) (simp add: digit_zero_iff)
  next
    case False
    then have "n div 10 \<noteq> 0" by simp
    with 1 False show ?thesis by (subst digits.simps) (simp add: digits_not_Nil)
  qed
qed

lemma digits_eq_0: "digits n = ''0'' \<longleftrightarrow> n = 0"
  using digits_value_digits [of n] digits_0 by (auto simp: digits_value_def)

lemma canonical_digits_digits: "canonical_digits (digits n)"
  by (simp add: canonical_digits_def digits_not_Nil digits_all_digits hd_digits digits_0)

lemma digits_Cons:
  obtains c cs where "digits n = c # cs" and "c \<noteq> CHR ''-''"
proof -
  obtain c cs where d: "digits n = c # cs"
    using digits_not_Nil [of n] by (cases "digits n") auto
  with digits_all_digits [of n] have "is_digit c" by simp
  then have "c \<noteq> CHR ''-''" by (auto simp: is_digit_def)
  with d that show thesis by blast
qed

lemma to_string_canonical: "canonical_decimal (to_string i)"
proof (cases "i < 0")
  case True
  then show ?thesis
    by (simp add: to_string_def canonical_decimal_def canonical_digits_digits digits_eq_0)
next
  case False
  obtain c cs where "digits (nat i) = c # cs" and "c \<noteq> CHR ''-''"
    by (rule digits_Cons)
  with False canonical_digits_digits [of "nat i"] show ?thesis
    by (simp add: to_string_def canonical_decimal_def)
qed

lemma to_string_value: "decimal_value (to_string i) = i"
proof (cases "i < 0")
  case True
  then show ?thesis
    by (simp add: to_string_def decimal_value_def digits_value_digits)
next
  case False
  obtain c cs where "digits (nat i) = c # cs" and "c \<noteq> CHR ''-''"
    by (rule digits_Cons)
  with False digits_value_digits [of "nat i"] show ?thesis
    by (simp add: to_string_def decimal_value_def)
qed

section \<open>Lemmas about path resolution\<close>

lemma getItem_loop_returns:
  "\<exists>first found. getItem_loop (Some item) path = Inr (first, found) \<and> found = (first \<noteq> None)"
  by (induction path arbitrary: item) (auto split: option.splits)

lemma getItem_returns:
  "\<exists>first found. getItem input path = Inr (first, found) \<and> found = (first \<noteq> None)"
  unfolding getItem_def by (rule getItem_loop_returns)

lemma getItem_key: "getItem input [k] = (case map_of input k of
    None \<Rightarrow> Inr (None, False) | Some v \<Rightarrow> Inr (Some v, True))"
  by (simp add: getItem_def split: option.splits)

lemma getItem_loop_append:
  "getItem_loop (Some v) xs = Inr (Some w, True) \<Longrightarrow>
   getItem_loop (Some v) (xs @ ys) = getItem_loop (Some w) ys"
  by (induction xs arbitrary: v) (auto split: option.splits)

lemma getItem_through_non_map:
  assumes "getItem input pre = Inr (Some v, True)" and "\<not> is_DMap v"
  shows "getItem input (pre @ key # rest) = Inr (None, False)"
  using assms by (cases v) (simp_all add: getItem_def getItem_loop_append)

lemma getString_not_found:
  "getItem input path = Inr (first, False) \<Longrightarrow> getString input path = Inr ('''', False)"
  by (simp add: getString_def)

text \<open>
  For an item that is a value, \<open>getString\<close> returns a \<open>String\<close> as it is, an \<open>Int\<close> as the
  text of \<open>std::to_string\<close>, which is a canonical decimal text that reads back as the
  signed value, and the empty text with the flag false otherwise.
\<close>

lemma getString_of_value:
  assumes "getItem input path = Inr (Some v, True)" and "\<not> is_DArray v" and "\<not> is_DMap v"
  shows "getString input path =
           Inr (case v of
                  DString s \<Rightarrow> (s, True)
                | DInt n \<Rightarrow> (to_string (sint n), True)
                | _ \<Rightarrow> ('''', False))"
  using assms by (cases v) (simp_all add: getString_def toValue_def)

lemma getString_of_non_value:
  assumes "getItem input path = Inr (Some v, True)" and "is_DArray v \<or> is_DMap v"
  shows "getString input path = Inl NullPointerDereference"
  using assms by (auto simp: getString_def toValue_def)

section \<open>Lemmas about the evaluator\<close>

lemma processItem_Replace:
  "processItem ts input (Some (ReplaceItem path nxt)) out =
     processReplace ts input path nxt out"
  by (simp split: sum.splits prod.splits)

lemma processItem_If:
  "processItem ts input (Some (IfItem l r ic ec nxt)) out =
     processIfCondition ts input l r ic ec nxt out"
  by (simp split: sum.splits prod.splits)

lemma processItem_For:
  "processItem ts input (Some (ForLoopItem name path fc nxt)) out =
     processForLoop ts input name path fc nxt out"
  by (simp split: sum.splits prod.splits)

lemma map_of_insert_other:
  "name \<noteq> k \<Longrightarrow> map_of (DataMap_insert name element input) k = map_of input k"
  by (simp add: DataMap_insert_def update_conv')

lemma map_of_insert_same:
  "map_of (DataMap_insert name element input) name = Some element"
  by (simp add: DataMap_insert_def update_conv')

text \<open>
  The evaluator changes the context only by inserting loop variables: a key that no
  ForLoop of the evaluated chain binds keeps its entry.
\<close>

lemma binding_kept:
  "\<not> binds k part \<Longrightarrow> processItem ts input part out = Inr (ok, input', out')
     \<Longrightarrow> map_of input' k = map_of input k"
  "\<not> binds k nxt \<Longrightarrow> processReplace ts input path nxt out = Inr (ok, input', out')
     \<Longrightarrow> map_of input' k = map_of input k"
  "\<not> binds k ic \<Longrightarrow> \<not> binds k ec \<Longrightarrow> \<not> binds k nxt
     \<Longrightarrow> processIfCondition ts input l r ic ec nxt out = Inr (ok, input', out')
     \<Longrightarrow> map_of input' k = map_of input k"
  "name \<noteq> k \<Longrightarrow> \<not> binds k fc \<Longrightarrow> \<not> binds k nxt
     \<Longrightarrow> processForLoop ts input name path fc nxt out = Inr (ok, input', out')
     \<Longrightarrow> map_of input' k = map_of input k"
  "name \<noteq> k \<Longrightarrow> \<not> binds k fc
     \<Longrightarrow> processForLoop_iter ts input name fc array out = Inr (ok, input', out')
     \<Longrightarrow> map_of input' k = map_of input k"
proof (induction ts input part out and ts input path nxt out and ts input l r ic ec nxt out
    and ts input name path fc nxt out and ts input name fc array out
    arbitrary: ok input' out' and ok input' out' and ok input' out' and ok input' out'
      and ok input' out'
    rule: processItem_processReplace_processIfCondition_processForLoop_processForLoop_iter.induct)
  case (1 ts input out)
  then show ?case by simp
next
  case (2 ts input t nxt out)
  then show ?case by simp
next
  case (3 ts input path nxt out)
  from "3.prems" show ?case
    by (simp only: processItem_Replace) (rule "3.IH", simp_all)
next
  case (4 ts input l r ic ec nxt out)
  from "4.prems" show ?case
    by (simp only: processItem_If) (rule "4.IH", simp_all)
next
  case (5 ts input name path fc nxt out)
  from "5.prems" show ?case
    by (simp only: processItem_For) (rule "5.IH", auto)
next
  case (6 ts input path nxt out)
  then show ?case
    by (auto split: sum.splits prod.splits if_splits)
next
  case (7 ts input l r ic ec nxt out)
  from "7.prems"(4) obtain s found where g: "getString input l = Inr (s, found)"
    by (auto split: sum.splits prod.splits)
  show ?case
  proof (cases found)
    case False
    with "7.prems"(4) g show ?thesis by simp
  next
    case True
    let ?b = "if s = ts r \<or> s = ''True'' \<or> s = ''true''
                then processItem ts input ic out
                else if ec \<noteq> None then processItem ts input ec out
                else Inr (True, input, out)"
    from "7.prems"(4) g True obtain ig i1 o1 where b: "?b = Inr (ig, i1, o1)"
      and n: "processItem ts i1 nxt o1 = Inr (ok, input', out')"
      by (auto split: sum.splits prod.splits)
    have f: "found \<noteq> False" using True by simp
    have 1: "map_of i1 k = map_of input k"
    proof (cases "s = ts r \<or> s = ''True'' \<or> s = ''true''")
      case c: True
      with b have "processItem ts input ic out = Inr (ig, i1, o1)" by simp
      with "7.IH"(1) [OF g refl f c "7.prems"(1)] show ?thesis by simp
    next
      case c: False
      show ?thesis
      proof (cases "ec = None")
        case e: True
        with c b show ?thesis by simp
      next
        case ne: False
        with c b have "processItem ts input ec out = Inr (ig, i1, o1)" by simp
        with "7.IH"(2) [OF g refl f c ne "7.prems"(2)] show ?thesis by simp
      qed
    qed
    have 2: "map_of input' k = map_of i1 k"
      using "7.IH"(3) [OF g refl f b refl refl "7.prems"(3) n] by simp
    from 1 2 show ?thesis by simp
  qed
next
  case (8 ts input name path fc nxt out)
  from "8.prems"(4) obtain first found where g: "getItem input path = Inr (first, found)"
    by (auto split: sum.splits prod.splits)
  show ?case
  proof (cases found)
    case False
    with "8.prems"(4) g show ?thesis by simp
  next
    case fnd: True
    have fd: "found \<noteq> False" using fnd by simp
    from "8.prems"(4) g fnd obtain item where f: "first = Some item"
      by (cases first) auto
    show ?thesis
    proof (cases item)
      case (DArray array)
      from "8.prems"(4) g fnd f DArray obtain ok1 i1 o1 where
        l: "processForLoop_iter ts input name fc array out = Inr (ok1, i1, o1)"
        by (auto split: sum.splits prod.splits)
      have 1: "map_of i1 k = map_of input k"
        using "8.IH"(1) [OF g refl fd f DArray "8.prems"(1,2) l] by simp
      show ?thesis
      proof (cases ok1)
        case False
        with "8.prems"(4) g fnd f DArray l 1 show ?thesis by simp
      next
        case True
        with "8.prems"(4) g fnd f DArray l
        have n: "processItem ts i1 nxt o1 = Inr (ok, input', out')"
          by simp
        have "ok1 \<noteq> False" using True by simp
        from "8.IH"(2) [OF g refl fd f DArray l refl refl this "8.prems"(3) n]
        have "map_of input' k = map_of i1 k" .
        with 1 show ?thesis by simp
      qed
    qed (use "8.prems"(4) g fnd f in simp_all)
  qed
next
  case (9 ts input name fc out)
  then show ?case by simp
next
  case (10 ts input name fc element array out)
  from "10.prems"(3) obtain ok1 i1 o1 where
    b: "processItem ts (DataMap_insert name element input) fc out = Inr (ok1, i1, o1)"
    by (auto split: sum.splits prod.splits)
  have 1: "map_of i1 k = map_of input k"
    using "10.IH"(1) [OF "10.prems"(2) b] "10.prems"(1) by (simp add: map_of_insert_other)
  show ?case
  proof (cases ok1)
    case False
    with "10.prems"(3) b 1 show ?thesis by simp
  next
    case True
    with "10.prems"(3) b have l:
      "processForLoop_iter ts i1 name fc array o1 = Inr (ok, input', out')"
      by simp
    have "map_of input' k = map_of i1 k"
      using "10.IH"(2) [OF b refl refl _ "10.prems"(1,2) l] True by simp
    with 1 show ?thesis by simp
  qed
qed

section \<open>The loop of the code and the iterations of the spec\<close>

lemma iteration_simps:
  "iteration ts name fc (Inl e) element = Inl e"
  "iteration ts name fc (Inr (False, ctx, buffer)) element = Inr (False, ctx, buffer)"
  "iteration ts name fc (Inr (True, ctx, buffer)) element
     = processItem ts (DataMap_insert name element ctx) fc buffer"
  by (simp_all add: iteration_def)

lemma foldl_iteration_stops:
  "foldl (iteration ts name fc) (Inl e) array = Inl e"
  "foldl (iteration ts name fc) (Inr (False, ctx, buffer)) array = Inr (False, ctx, buffer)"
  by (induction array) (simp_all add: iteration_simps)

lemma processForLoop_iter_foldl:
  "processForLoop_iter ts input name fc array out
     = foldl (iteration ts name fc) (Inr (True, input, out)) array"
proof (induction array arbitrary: input out)
  case Nil
  show ?case by simp
next
  case (Cons element array)
  show ?case
  proof (cases "processItem ts (DataMap_insert name element input) fc out")
    case (Inl e)
    then show ?thesis by (simp add: iteration_simps foldl_iteration_stops)
  next
    case (Inr r)
    obtain ok i1 o1 where r: "r = (ok, i1, o1)" by (cases r)
    with Inr Cons show ?thesis
      by (cases ok) (simp_all add: iteration_simps foldl_iteration_stops)
  qed
qed

lemma processForLoop_foldl:
  assumes "getItem input path = Inr (Some (DArray array), True)"
  shows "processItem ts input (Some (ForLoopItem name path fc nxt)) out =
           (case foldl (iteration ts name fc) (Inr (True, input, out)) array of
              Inl e \<Rightarrow> Inl e
            | Inr (ok, ctx, buffer) \<Rightarrow>
                if ok then processItem ts ctx nxt buffer else Inr (False, ctx, buffer))"
  using assms
  by (simp only: processItem_For)
     (simp add: processForLoop_iter_foldl split: sum.splits prod.splits)

lemma foldl_iteration_last:
  assumes "array \<noteq> []" and "\<not> binds name fc"
    and "foldl (iteration ts name fc) (Inr (True, input, out)) array = Inr (True, ctx, buffer)"
  shows "map_of ctx name = Some (last array)"
proof -
  obtain pre x where a: "array = pre @ [x]"
    using assms(1) by (cases array rule: rev_cases) auto
  let ?r = "foldl (iteration ts name fc) (Inr (True, input, out)) pre"
  from assms(3) a have i: "iteration ts name fc ?r x = Inr (True, ctx, buffer)" by simp
  then obtain i1 o1 where r: "?r = Inr (True, i1, o1)"
    by (cases ?r) (auto simp: iteration_def split: if_splits)
  with i have "processItem ts (DataMap_insert name x i1) fc o1 = Inr (True, ctx, buffer)"
    by (simp add: iteration_simps)
  from binding_kept(1) [OF assms(2) this] a show ?thesis
    by (simp add: map_of_insert_same)
qed

lemma getString_insert_Int:
  "getString (DataMap_insert name (DInt n) input) [name] = Inr (to_string (sint n), True)"
  by (simp add: getString_def getItem_key map_of_insert_same toValue_def)

lemma processForLoop_iter_Replace_Ints:
  "processForLoop_iter ts input name (Some (ReplaceItem [name] None)) (map DInt ns) out =
     Inr (True, foldl (\<lambda>m n. DataMap_insert name (DInt n) m) input ns,
          out @ concat (map (\<lambda>n. to_string (sint n)) ns))"
  by (induction ns arbitrary: input out) (simp_all add: getString_insert_Int)

lemma getItem_foldl_insert:
  "ns \<noteq> [] \<Longrightarrow>
   getItem (foldl (\<lambda>m n. DataMap_insert name (DInt n) m) input ns) [name]
     = Inr (Some (DInt (last ns)), True)"
  by (induction ns rule: rev_induct) (simp_all add: getItem_key map_of_insert_same)

section \<open>The claims\<close>

text \<open>
  C1. The code does not do what the claim says. \<open>processIfCondition\<close> drops the flag
  that \<open>processItem\<close> returns for the chosen branch: here the condition resolves, the
  branch is a Replace of a missing path and fails on its own, and the If node still
  goes on to its next sibling, appends its text to the error message and returns
  true.
\<close>

theorem if_branch_failure_is_swallowed:
  "processItem scalar_toString [(''a'', DString ''true'')]
       (Some (ReplaceItem [''missing''] None)) ''head''
     = Inr (False, [(''a'', DString ''true'')], createErrorMessage [''missing''])
   \<and> processItem scalar_toString [(''a'', DString ''true'')]
       (Some (IfItem [''a''] (DString ''x'') (Some (ReplaceItem [''missing''] None)) None
          (Some (TextItem ''tail'' None)))) ''head''
     = Inr (True, [(''a'', DString ''true'')], createErrorMessage [''missing''] @ ''tail'')
   \<and> convert scalar_toString
       (Inr (Some (IfItem [''a''] (DString ''x'') (Some (ReplaceItem [''missing''] None)) None
          (Some (TextItem ''tail'' None))))) [(''a'', DString ''true'')]
     = Inr ((True, createErrorMessage [''missing''] @ ''tail''), [(''a'', DString ''true'')])"
  by (simp add: convert_def getString_def getItem_def toValue_def)

text \<open>
  C2. The code does not do what the claim says. For the path \<open>user.name\<close> the message
  holds the separating dot and neither key: the line appending the key is commented
  out in \<open>createErrorMessage\<close>.
\<close>

theorem createErrorMessage_omits_keys:
  "createErrorMessage [''user'', ''name'']
     = ''error while converting jinja2-template \<newline>''
       @ ''    can not find item in path in json-input: .\<newline>''
       @ ''    or maybe the item does not have a valid format''
       @ '' or the place where it should be used \<newline>''
   \<and> \<not> sublist ''user.name'' (createErrorMessage [''user'', ''name''])
   \<and> \<not> sublist ''user'' (createErrorMessage [''user'', ''name''])
   \<and> \<not> sublist ''name'' (createErrorMessage [''user'', ''name''])"
proof -
  have m: "createErrorMessage [''user'', ''name'']
     = ''error while converting jinja2-template \<newline>''
       @ ''    can not find item in path in json-input: .\<newline>''
       @ ''    or maybe the item does not have a valid format''
       @ '' or the place where it should be used \<newline>''"
    by (simp add: createErrorMessage_def)
  have "\<not> sublist ''user.name'' (createErrorMessage [''user'', ''name''])"
    by code_simp
  moreover have "\<not> sublist ''user'' (createErrorMessage [''user'', ''name''])"
    by code_simp
  moreover have "\<not> sublist ''name'' (createErrorMessage [''user'', ''name''])"
    by code_simp
  ultimately show ?thesis using m by blast
qed

text \<open>
  C3. The code does not do what the claim says. A ForLoop whose source is the string
  \<open>Ada\<close> returns false and appends nothing, but it leaves the buffer as it is: the
  text written before the loop comes back with the failure flag, and no message is
  written.
\<close>

theorem forloop_non_array_keeps_output:
  "getItem [(''name'', DString ''Ada'')] [''name''] = Inr (Some (DString ''Ada''), True)
   \<and> processItem scalar_toString [(''name'', DString ''Ada'')]
       (Some (TextItem ''Hello '' (Some (ForLoopItem ''x'' [''name'']
          (Some (TextItem ''y'' None)) None)))) ''''
     = Inr (False, [(''name'', DString ''Ada'')], ''Hello '')
   \<and> convert scalar_toString
       (Inr (Some (TextItem ''Hello '' (Some (ForLoopItem ''x'' [''name'']
          (Some (TextItem ''y'' None)) None))))) [(''name'', DString ''Ada'')]
     = Inr ((False, ''Hello ''), [(''name'', DString ''Ada'')])
   \<and> ''Hello '' \<noteq> createErrorMessage [''name'']"
  by (simp add: convert_def getItem_def createErrorMessage_def)

text \<open>
  C4, as the claim states it, fails on the code. Over the array \<open>[1, true]\<close> with the
  body \<open>Replace i\<close> the first iteration appends \<open>1\<close>; the second fails inside
  \<open>processReplace\<close>, which clears the whole buffer before it writes the message, so the
  output of the first iteration is gone when the loop returns false.
\<close>

theorem forloop_prior_output_cleared:
  "processForLoop_iter scalar_toString [(''xs'', DArray [DInt 1, DBool True])] ''i''
       (Some (ReplaceItem [''i''] None)) [DInt 1] ''''
     = Inr (True, [(''xs'', DArray [DInt 1, DBool True]), (''i'', DInt 1)], ''1'')
   \<and> processItem scalar_toString [(''xs'', DArray [DInt 1, DBool True])]
       (Some (ForLoopItem ''i'' [''xs''] (Some (ReplaceItem [''i''] None)) None)) ''''
     = Inr (False, [(''xs'', DArray [DInt 1, DBool True]), (''i'', DBool True)],
            createErrorMessage [''i''])
   \<and> \<not> sublist ''1'' (createErrorMessage [''i''])"
proof -
  have "\<not> sublist ''1'' (createErrorMessage [''i''])"
    by code_simp
  then show ?thesis
    by (simp add: getString_def getItem_def toValue_def DataMap_insert_def to_string_def
        digits.simps)
qed

text \<open>
  C4, amended. For every ForLoop over an array: when the iterations over the elements
  before some element all succeed and the body fails on that element, the ForLoop node
  returns false at once, with the context and the buffer exactly as the failing body
  left them; the remaining elements and the next sibling are not evaluated. The loop
  itself neither clears nor restores the buffer. The failing body is evaluated on the
  context \<open>input1\<close> and the buffer \<open>out1\<close> that the earlier iterations left, each of them
  being the body evaluated, with the element bound, on what the iteration before it
  left (the fold of \<open>iteration\<close> over the earlier elements); what becomes of the earlier
  output is what the failing body does to the whole buffer.
\<close>

theorem forloop_body_failure:
  assumes "getItem input path = Inr (Some (DArray (pre @ element # rest)), True)"
    and "foldl (iteration ts name fc) (Inr (True, input, out)) pre = Inr (True, input1, out1)"
    and "processItem ts (DataMap_insert name element input1) fc out1
           = Inr (False, input2, out2)"
  shows "processItem ts input (Some (ForLoopItem name path fc nxt)) out
           = Inr (False, input2, out2)"
  unfolding processForLoop_foldl [OF assms(1)]
  using assms(2,3) by (simp add: iteration_simps foldl_iteration_stops)

text \<open>
  An instance: from the buffer \<open>head\<close> the first iteration leaves \<open>headx\<close>, the body
  fails on the second element, a \<open>Bool\<close>, and the loop returns false with the message
  that the failing Replace wrote.
\<close>

theorem forloop_body_failure_witness:
  "getItem [(''xs'', DArray [DString ''x'', DBool False])] [''xs'']
     = Inr (Some (DArray ([DString ''x''] @ DBool False # [])), True)
   \<and> foldl (iteration scalar_toString ''i'' (Some (ReplaceItem [''i''] None)))
         (Inr (True, [(''xs'', DArray [DString ''x'', DBool False])], ''head''))
         [DString ''x'']
     = Inr (True, [(''xs'', DArray [DString ''x'', DBool False]), (''i'', DString ''x'')],
            ''headx'')
   \<and> processItem scalar_toString
       (DataMap_insert ''i'' (DBool False)
          [(''xs'', DArray [DString ''x'', DBool False]), (''i'', DString ''x'')])
       (Some (ReplaceItem [''i''] None)) ''headx''
     = Inr (False, [(''xs'', DArray [DString ''x'', DBool False]), (''i'', DBool False)],
            createErrorMessage [''i''])
   \<and> processItem scalar_toString [(''xs'', DArray [DString ''x'', DBool False])]
       (Some (ForLoopItem ''i'' [''xs''] (Some (ReplaceItem [''i''] None))
          (Some (TextItem ''tail'' None)))) ''head''
     = Inr (False, [(''xs'', DArray [DString ''x'', DBool False]), (''i'', DBool False)],
            createErrorMessage [''i''])"
proof -
  let ?m = "[(''xs'', DArray [DString ''x'', DBool False])]"
  let ?body = "Some (ReplaceItem [''i''] None)"
  have g: "getItem ?m [''xs''] = Inr (Some (DArray ([DString ''x''] @ DBool False # [])), True)"
    by (simp add: getItem_def)
  have p: "foldl (iteration scalar_toString ''i'' ?body) (Inr (True, ?m, ''head''))
             [DString ''x'']
             = Inr (True, [(''xs'', DArray [DString ''x'', DBool False]), (''i'', DString ''x'')],
                    ''headx'')"
    by (simp add: iteration_def getString_def getItem_def toValue_def DataMap_insert_def)
  have b: "processItem scalar_toString
             (DataMap_insert ''i'' (DBool False)
                [(''xs'', DArray [DString ''x'', DBool False]), (''i'', DString ''x'')])
             ?body ''headx''
             = Inr (False, [(''xs'', DArray [DString ''x'', DBool False]), (''i'', DBool False)],
                    createErrorMessage [''i''])"
    by (simp add: getString_def getItem_def toValue_def DataMap_insert_def)
  from forloop_body_failure [OF g p b, of "Some (TextItem ''tail'' None)"] g p b
  show ?thesis by (simp only: simp_thms)
qed

text \<open>
  C5. A ForLoop inserts the loop variable into the context map it was given, and that
  map goes on to the next iteration and to the next sibling with the binding in it.
  For every ForLoop whose source resolves to an array:
  \<^item> the node does what the iterations of the spec say: each element in turn is
    inserted under the binding name into the context the iteration before left, the
    body is evaluated against that context, and after the last iteration the next
    sibling is evaluated against the context and buffer it left;
  \<^item> when the array is not empty, no ForLoop inside the body binds the same name and all
    iterations succeed, the next sibling is evaluated in a context in which the binding
    name resolves to the last element of the array, whatever its type;
  \<^item> for an array of \<open>Int\<close> values and the body \<open>Replace name\<close>, the loop appends the
    decimal texts of the elements in order and the name ends bound to the last element.
  For the array \<open>[1, 2, 3]\<close> and the name \<open>i\<close> the output is \<open>123\<close>, \<open>i\<close> is bound to \<open>3\<close>
  afterwards, and a following \<open>Replace i\<close> appends \<open>3\<close>.
\<close>

theorem forloop_binding_persists:
  assumes "getItem input path = Inr (Some (DArray array), True)"
  shows "processItem ts input (Some (ForLoopItem name path fc nxt)) out =
           (case foldl (iteration ts name fc) (Inr (True, input, out)) array of
              Inl e \<Rightarrow> Inl e
            | Inr (ok, ctx, buffer) \<Rightarrow>
                if ok then processItem ts ctx nxt buffer else Inr (False, ctx, buffer))
         \<and> (array \<noteq> [] \<and> \<not> binds name fc
              \<and> foldl (iteration ts name fc) (Inr (True, input, out)) array
                  = Inr (True, input', out')
            \<longrightarrow> processItem ts input (Some (ForLoopItem name path fc nxt)) out
                  = processItem ts input' nxt out'
                \<and> getItem input' [name] = Inr (Some (last array), True))
         \<and> (array = map DInt ns
            \<longrightarrow> processItem ts input
                    (Some (ForLoopItem name path (Some (ReplaceItem [name] None)) nxt)) out
                  = processItem ts (foldl (\<lambda>m n. DataMap_insert name (DInt n) m) input ns) nxt
                      (out @ concat (map (\<lambda>n. to_string (sint n)) ns))
                \<and> (ns \<noteq> [] \<longrightarrow>
                     getItem (foldl (\<lambda>m n. DataMap_insert name (DInt n) m) input ns) [name]
                       = Inr (Some (DInt (last ns)), True)))"
proof (intro conjI impI)
  show "processItem ts input (Some (ForLoopItem name path fc nxt)) out =
           (case foldl (iteration ts name fc) (Inr (True, input, out)) array of
              Inl e \<Rightarrow> Inl e
            | Inr (ok, ctx, buffer) \<Rightarrow>
                if ok then processItem ts ctx nxt buffer else Inr (False, ctx, buffer))"
    using assms by (rule processForLoop_foldl)
next
  assume a: "array \<noteq> [] \<and> \<not> binds name fc
              \<and> foldl (iteration ts name fc) (Inr (True, input, out)) array
                  = Inr (True, input', out')"
  then show "processItem ts input (Some (ForLoopItem name path fc nxt)) out
                  = processItem ts input' nxt out'"
    unfolding processForLoop_foldl [OF assms] by simp
  from a have "map_of input' name = Some (last array)"
    using foldl_iteration_last by blast
  then show "getItem input' [name] = Inr (Some (last array), True)"
    by (simp add: getItem_key)
next
  assume "array = map DInt ns"
  with assms show "processItem ts input
                    (Some (ForLoopItem name path (Some (ReplaceItem [name] None)) nxt)) out
                  = processItem ts (foldl (\<lambda>m n. DataMap_insert name (DInt n) m) input ns) nxt
                      (out @ concat (map (\<lambda>n. to_string (sint n)) ns))"
    by (simp only: processItem_For) (simp add: processForLoop_iter_Replace_Ints)
next
  assume "ns \<noteq> []"
  then show "getItem (foldl (\<lambda>m n. DataMap_insert name (DInt n) m) input ns) [name]
                       = Inr (Some (DInt (last ns)), True)"
    by (rule getItem_foldl_insert)
qed

theorem forloop_binding_persists_witness:
  "getItem [(''xs'', DArray [DInt 1, DInt 2, DInt 3])] [''xs'']
     = Inr (Some (DArray [DInt 1, DInt 2, DInt 3]), True)
   \<and> \<not> binds ''i'' (Some (ReplaceItem [''i''] None))
   \<and> foldl (iteration scalar_toString ''i'' (Some (ReplaceItem [''i''] None)))
         (Inr (True, [(''xs'', DArray [DInt 1, DInt 2, DInt 3])], ''''))
         [DInt 1, DInt 2, DInt 3]
       = Inr (True, [(''xs'', DArray [DInt 1, DInt 2, DInt 3]), (''i'', DInt 3)], ''123'')
   \<and> processItem scalar_toString [(''xs'', DArray [DInt 1, DInt 2, DInt 3])]
        (Some (ForLoopItem ''i'' [''xs''] (Some (ReplaceItem [''i''] None)) None)) ''''
       = Inr (True, [(''xs'', DArray [DInt 1, DInt 2, DInt 3]), (''i'', DInt 3)], ''123'')
   \<and> getItem [(''xs'', DArray [DInt 1, DInt 2, DInt 3]), (''i'', DInt 3)] [''i'']
       = Inr (Some (DInt 3), True)
   \<and> processItem scalar_toString [(''xs'', DArray [DInt 1, DInt 2, DInt 3])]
        (Some (ForLoopItem ''i'' [''xs''] (Some (ReplaceItem [''i''] None))
           (Some (ReplaceItem [''i''] None)))) ''''
       = Inr (True, [(''xs'', DArray [DInt 1, DInt 2, DInt 3]), (''i'', DInt 3)], ''1233'')"
proof -
  let ?m = "[(''xs'', DArray [DInt 1, DInt 2, DInt 3])]"
  let ?m' = "[(''xs'', DArray [DInt 1, DInt 2, DInt 3]), (''i'', DInt 3)]"
  let ?body = "Some (ReplaceItem [''i''] None)"
  have g: "getItem ?m [''xs''] = Inr (Some (DArray [DInt 1, DInt 2, DInt 3]), True)"
    by (simp add: getItem_def)
  have nb: "\<not> binds ''i'' ?body" by simp
  have l: "foldl (iteration scalar_toString ''i'' ?body) (Inr (True, ?m, ''''))
             [DInt 1, DInt 2, DInt 3] = Inr (True, ?m', ''123'')"
    by (simp add: iteration_def getString_def getItem_def toValue_def DataMap_insert_def
        to_string_def digits.simps)
  have c: "[DInt 1, DInt 2, DInt 3] \<noteq> [] \<and> \<not> binds ''i'' ?body
      \<and> foldl (iteration scalar_toString ''i'' ?body) (Inr (True, ?m, ''''))
           [DInt 1, DInt 2, DInt 3] = Inr (True, ?m', ''123'')"
    using nb l by simp
  have r: "processItem scalar_toString ?m' ?body ''123'' = Inr (True, ?m', ''1233'')"
    by (simp add: getString_def getItem_def toValue_def to_string_def digits.simps)
  note p = forloop_binding_persists [OF g, of scalar_toString "''i''" ?body _ "''''" ?m' "''123''"]
  note p2 = p [of None, THEN conjunct2, THEN conjunct1, THEN mp, OF c]
  note p3 = p [of ?body, THEN conjunct2, THEN conjunct1, THEN mp, OF c]
  from p2 have 1:
    "processItem scalar_toString ?m (Some (ForLoopItem ''i'' [''xs''] ?body None)) ''''
       = Inr (True, ?m', ''123'')"
    by simp
  from p2 have 2: "getItem ?m' [''i''] = Inr (Some (DInt 3), True)"
    by simp
  from p3 have 3:
    "processItem scalar_toString ?m (Some (ForLoopItem ''i'' [''xs''] ?body ?body)) ''''
       = Inr (True, ?m', ''1233'')"
    by (simp only: r)
  from g nb l 1 2 3 show ?thesis by (simp only: simp_thms)
qed

text \<open>
  C6. The code does not do what the claim says. A Replace whose path does not resolve
  clears the buffer and returns false, but when the Replace is the branch of an If node
  the render is not aborted: \<open>processIfCondition\<close> drops the flag, the text after the
  If node is appended to the message, and \<open>convert\<close> returns true.
\<close>

theorem replace_in_if_branch_does_not_abort:
  "getString [(''a'', DString ''true'')] [''missing''] = Inr ('''', False)
   \<and> convert scalar_toString
       (Inr (Some (TextItem ''head'' (Some (IfItem [''a''] (DString ''x'')
          (Some (ReplaceItem [''missing''] None)) None (Some (TextItem ''tail'' None)))))))
       [(''a'', DString ''true'')]
     = Inr ((True, createErrorMessage [''missing''] @ ''tail''), [(''a'', DString ''true'')])"
  by (simp add: convert_def getString_def getItem_def toValue_def)

text \<open>
  C7. The code does not do what the claim says. When the path resolves to an \<open>Array\<close>
  or a \<open>Map\<close>, \<open>getString\<close> does not return the pair with the flag false: it calls
  \<open>getValueType()\<close> through the null pointer that \<open>toValue()\<close> gives for such an item.
\<close>

theorem getString_dereferences_null_on_array:
  "getItem [(''xs'', DArray [DInt 1]), (''m'', DMap [])] [''xs'']
     = Inr (Some (DArray [DInt 1]), True)
   \<and> toValue (DArray [DInt 1]) = None
   \<and> getString [(''xs'', DArray [DInt 1]), (''m'', DMap [])] [''xs'']
     = Inl NullPointerDereference
   \<and> getString [(''xs'', DArray [DInt 1]), (''m'', DMap [])] [''m'']
     = Inl NullPointerDereference
   \<and> convert scalar_toString (Inr (Some (ReplaceItem [''xs''] None)))
        [(''xs'', DArray [DInt 1]), (''m'', DMap [])]
     = Inl NullPointerDereference"
  by (simp add: convert_def getString_def getItem_def toValue_def)

text \<open>
  C8, as the claim states it, fails on the code: the failure does not carry the path.
  Through the string under \<open>a\<close>, the paths \<open>a.b\<close> and \<open>a.c\<close> fail with the same result of
  \<open>getItem\<close>, the flag false without an item, and a Replace on either gives the same
  result as well.
\<close>

theorem getItem_failure_carries_no_path:
  "[''a'', ''b''] \<noteq> [''a'', ''c'']
   \<and> getItem [(''a'', DString ''x'')] [''a'', ''b''] = Inr (None, False)
   \<and> getItem [(''a'', DString ''x'')] [''a'', ''c''] = Inr (None, False)
   \<and> processItem scalar_toString [(''a'', DString ''x'')]
        (Some (ReplaceItem [''a'', ''b''] None)) ''head''
     = processItem scalar_toString [(''a'', DString ''x'')]
        (Some (ReplaceItem [''a'', ''c''] None)) ''head''"
  by (simp add: getString_def getItem_def createErrorMessage_def)

text \<open>
  C8, amended. Path resolution returns for every context and every path, without
  dereferencing a null pointer: \<open>getItem\<close> gives its pair, with the flag true exactly
  when the pointer is set. When a prefix of the path resolves to a value that is not a
  \<open>Map\<close>, \<open>getItem\<close> fails, with the flag false and no item, whatever the next key and
  the rest of the path are. The result of \<open>getItem\<close> is that pair alone; it carries no
  path.
\<close>

theorem getItem_total_and_non_map:
  "(\<exists>first found. getItem input path = Inr (first, found) \<and> found = (first \<noteq> None))
   \<and> (getItem input pre = Inr (Some v, True) \<and> \<not> is_DMap v
        \<longrightarrow> getItem input (pre @ key # rest) = Inr (None, False))"
  using getItem_returns [of input path] getItem_through_non_map [of input pre v key rest]
  by blast

theorem getItem_total_and_non_map_witness:
  "getItem [(''a'', DString ''x'')] [''a''] = Inr (Some (DString ''x''), True)
   \<and> \<not> is_DMap (DString ''x'')
   \<and> getItem [(''a'', DString ''x'')] [''a'', ''b''] = Inr (None, False)
   \<and> getItem [(''a'', DString ''x'')] [''a'', ''b'', ''c''] = Inr (None, False)"
proof -
  have g: "getItem [(''a'', DString ''x'')] [''a''] = Inr (Some (DString ''x''), True)"
    by (simp add: getItem_def)
  have n: "\<not> is_DMap (DString ''x'')" by simp
  note t = getItem_total_and_non_map [of "[(''a'', DString ''x'')]" _ "[''a'']" "DString ''x''",
      THEN conjunct2, THEN mp, OF conjI [OF g n]]
  from t [of "''b''" "[]"] t [of "''b''" "[''c'']"] g n
  show ?thesis by simp
qed

text \<open>
  C9. When the condition path of an If node resolves to the string \<open>s\<close>, the node
  evaluates \<open>ifChild\<close> exactly when \<open>s\<close> is the textual form of the right side, or
  \<open>True\<close>, or \<open>true\<close>, and \<open>elseChild\<close> otherwise (nothing when that is the null pointer),
  and then goes on to its next sibling. When \<open>s\<close> is \<open>true\<close> it evaluates \<open>ifChild\<close>
  whatever the right side is.
\<close>

theorem if_condition_truth:
  assumes "getString input leftSide = Inr (s, True)"
  shows "processItem ts input (Some (IfItem leftSide rightSide ifChild elseChild nxt)) out
           = (case processItem ts input
                     (if s = ts rightSide \<or> s = ''True'' \<or> s = ''true''
                      then ifChild else elseChild) out of
                Inl e \<Rightarrow> Inl e
              | Inr (ignored, input', out') \<Rightarrow> processItem ts input' nxt out')
         \<and> (s = ''true'' \<longrightarrow>
              processItem ts input (Some (IfItem leftSide rightSide ifChild elseChild nxt)) out
                = (case processItem ts input ifChild out of
                     Inl e \<Rightarrow> Inl e
                   | Inr (ignored, input', out') \<Rightarrow> processItem ts input' nxt out'))"
  using assms
  by (simp only: processItem_If) (cases elseChild; simp)

theorem if_condition_truth_witness:
  "getString [(''a'', DString ''true''), (''b'', DString ''no'')] [''a''] = Inr (''true'', True)
   \<and> processItem scalar_toString [(''a'', DString ''true''), (''b'', DString ''no'')]
        (Some (IfItem [''a''] (DString ''x'') (Some (TextItem ''then'' None))
           (Some (TextItem ''else'' None)) (Some (TextItem ''.'' None)))) ''''
       = Inr (True, [(''a'', DString ''true''), (''b'', DString ''no'')], ''then.'')
   \<and> getString [(''a'', DString ''true''), (''b'', DString ''no'')] [''b''] = Inr (''no'', True)
   \<and> processItem scalar_toString [(''a'', DString ''true''), (''b'', DString ''no'')]
        (Some (IfItem [''b''] (DString ''x'') (Some (TextItem ''then'' None))
           (Some (TextItem ''else'' None)) (Some (TextItem ''.'' None)))) ''''
       = Inr (True, [(''a'', DString ''true''), (''b'', DString ''no'')], ''else.'')
   \<and> processItem scalar_toString [(''a'', DString ''true''), (''b'', DString ''no'')]
        (Some (IfItem [''b''] (DString ''no'') (Some (TextItem ''then'' None))
           (Some (TextItem ''else'' None)) (Some (TextItem ''.'' None)))) ''''
       = Inr (True, [(''a'', DString ''true''), (''b'', DString ''no'')], ''then.'')"
proof -
  let ?m = "[(''a'', DString ''true''), (''b'', DString ''no'')]"
  have a: "getString ?m [''a''] = Inr (''true'', True)"
    by (simp add: getString_def getItem_def toValue_def)
  have b: "getString ?m [''b''] = Inr (''no'', True)"
    by (simp add: getString_def getItem_def toValue_def)
  show ?thesis
    using a b
      if_condition_truth [OF a, of scalar_toString "DString ''x''"
        "Some (TextItem ''then'' None)" "Some (TextItem ''else'' None)"
        "Some (TextItem ''.'' None)" "''''"]
      if_condition_truth [OF b, of scalar_toString "DString ''x''"
        "Some (TextItem ''then'' None)" "Some (TextItem ''else'' None)"
        "Some (TextItem ''.'' None)" "''''"]
      if_condition_truth [OF b, of scalar_toString "DString ''no''"
        "Some (TextItem ''then'' None)" "Some (TextItem ''else'' None)"
        "Some (TextItem ''.'' None)" "''''"]
    by (simp add: scalar_toString_def)
qed

text \<open>
  C10. A ForLoop whose source path resolves to the empty array succeeds without
  evaluating its body: the loop over no elements returns true with the context and the
  buffer untouched, so the binding name is not inserted, and the node's result is the
  result of its next sibling on the same context and buffer.
\<close>

theorem forloop_empty_array:
  assumes "getItem input path = Inr (Some (DArray []), True)"
  shows "processForLoop_iter ts input name fc [] out = Inr (True, input, out)
         \<and> processItem ts input (Some (ForLoopItem name path fc nxt)) out
             = processItem ts input nxt out"
  using assms by (simp only: processItem_For) simp

theorem forloop_empty_array_witness:
  "getItem [(''xs'', DArray [])] [''xs''] = Inr (Some (DArray []), True)
   \<and> processItem scalar_toString [(''xs'', DArray [])]
        (Some (ForLoopItem ''i'' [''xs''] (Some (ReplaceItem [''i''] None))
           (Some (TextItem ''tail'' None)))) ''head''
       = Inr (True, [(''xs'', DArray [])], ''headtail'')
   \<and> getItem [(''xs'', DArray [])] [''i''] = Inr (None, False)"
proof -
  have g: "getItem [(''xs'', DArray [])] [''xs''] = Inr (Some (DArray []), True)"
    by (simp add: getItem_def)
  have n: "getItem [(''xs'', DArray [])] [''i''] = Inr (None, False)"
    by (simp add: getItem_def)
  show ?thesis
    using g n
      forloop_empty_array [OF g, of scalar_toString "''i''" "Some (ReplaceItem [''i''] None)"
        "''head''" "Some (TextItem ''tail'' None)"]
    by simp
qed

end
